theory Spec2Isabelle
  imports
    Main
    "HOL-Library.Char_ord"
    "HOL-Library.List_Lexorder"
    "HOL-Library.Product_Lexorder"
begin

section \<open>Data model (src/database.ts)\<close>

text \<open>
  The interfaces \<^verbatim>\<open>Task\<close> and \<^verbatim>\<open>PomodoroSession\<close> become records. Both have a field
  \<^verbatim>\<open>id\<close>, which clashes with the identity function of HOL, and the session has a field
  \<^verbatim>\<open>type\<close>; they are suffixed: \<open>id_task\<close>, \<open>id_session\<close>, \<open>type_session\<close>.
  Timestamps are the ISO strings the code stores; SQLite compares \<^verbatim>\<open>TEXT\<close> values
  bytewise, which is the lexicographic order on \<open>string\<close>.
\<close>

record Task =
  id_task :: string
  title :: string
  description :: "string option"
  day :: string
  priority :: int
  completed :: bool
  created_at :: string
  updated_at :: string

datatype session_type = work | short_break | long_break

record PomodoroSession =
  id_session :: string
  task_id :: "string option"
  duration :: int
  started_at :: string
  completed_at :: "string option"
  type_session :: session_type

text \<open>
  The store: the two tables created by \<^verbatim>\<open>init\<close>, as lists of rows in insertion order.
  \<^verbatim>\<open>pomodoro_sessions.task_id\<close> is declared
  \<^verbatim>\<open>FOREIGN KEY (task_id) REFERENCES tasks (id) ON DELETE SET NULL\<close>. SQLite applies a
  foreign-key clause only on a connection where foreign-key enforcement has been switched
  on with \<^verbatim>\<open>PRAGMA foreign_keys = ON\<close>; a connection opens with it off. The setting is the
  field \<open>foreign_keys\<close> of the store.
\<close>

record TodoDatabase =
  tasks :: "Task list"
  pomodoro_sessions :: "PomodoroSession list"
  foreign_keys :: bool

text \<open>An exception thrown by the SQLite driver (constraint violation, unknown column).\<close>

datatype error = StoreError

text \<open>
  \<^verbatim>\<open>init\<close> issues \<^verbatim>\<open>PRAGMA journal_mode = WAL\<close>, creates the two tables and three indexes,
  and issues no other pragma: foreign-key enforcement stays off.
\<close>

definition init :: TodoDatabase where
  "init = \<lparr>tasks = [], pomodoro_sessions = [], foreign_keys = False\<rparr>"

text \<open>\<^verbatim>\<open>id TEXT PRIMARY KEY\<close>: no two rows of a table share an id.\<close>

definition primary_keys :: "TodoDatabase \<Rightarrow> bool" where
  "primary_keys db \<longleftrightarrow>
     distinct (map id_task (tasks db)) \<and> distinct (map id_session (pomodoro_sessions db))"

section \<open>Task operations\<close>

text \<open>
  \<^verbatim>\<open>createTask\<close>: \<open>uuid\<close> is the value of \<^verbatim>\<open>crypto.randomUUID()\<close> and \<open>now\<close> that of
  \<^verbatim>\<open>new Date().toISOString()\<close>. The \<^verbatim>\<open>INSERT\<close> throws when the primary key is taken.
\<close>

definition createTask ::
  "TodoDatabase \<Rightarrow> string \<Rightarrow> string \<Rightarrow> string \<Rightarrow> string option \<Rightarrow> string \<Rightarrow> int \<Rightarrow> bool
     \<Rightarrow> error + (Task \<times> TodoDatabase)" where
  "createTask db uuid now ttl descr d prio compl =
     (let newTask = \<lparr>id_task = uuid, title = ttl, description = descr, day = d,
                      priority = prio, completed = compl,
                      created_at = now, updated_at = now\<rparr>
      in if uuid \<in> set (map id_task (tasks db)) then Inl StoreError
         else Inr (newTask, db\<lparr>tasks := tasks db @ [newTask]\<rparr>))"

text \<open>
  \<^verbatim>\<open>SELECT * FROM tasks WHERE day = $day ORDER BY priority ASC, created_at ASC\<close>.
  Rows that agree on both sort keys come in table order (\<open>sort_key\<close> is stable).
\<close>

definition getTasksByDay :: "TodoDatabase \<Rightarrow> string \<Rightarrow> Task list" where
  "getTasksByDay db d =
     sort_key (\<lambda>t. (priority t, created_at t)) (filter (\<lambda>t. day t = d) (tasks db))"

definition getAllTasks :: "TodoDatabase \<Rightarrow> Task list" where
  "getAllTasks db = sort_key (\<lambda>t. (day t, priority t, created_at t)) (tasks db)"

definition getTask :: "TodoDatabase \<Rightarrow> string \<Rightarrow> Task option" where
  "getTask db i = find (\<lambda>t. id_task t = i) (tasks db)"

text \<open>The columns of \<^verbatim>\<open>tasks\<close>, as \<^verbatim>\<open>CREATE TABLE\<close> spells them.\<close>

definition task_columns :: "string list" where
  "task_columns = [''id'', ''title'', ''description'', ''day'', ''priority'', ''completed'',
                   ''created_at'', ''updated_at'']"

text \<open>
  SQLite compares names without regard to the case of ASCII letters, and a table with a
  hidden row id answers to \<^verbatim>\<open>rowid\<close>, \<^verbatim>\<open>oid\<close> and \<^verbatim>\<open>_rowid_\<close> as well. A key is
  \<open>unresolved\<close> when it is a plain name (letters, digits and underscores, not starting with
  a digit) that SQLite resolves to no column of \<^verbatim>\<open>tasks\<close>. The keys of that kind form the
  type \<open>unknown_key\<close>.
\<close>

definition lower :: "char \<Rightarrow> char" where
  "lower c = (case map_of (zip ''ABCDEFGHIJKLMNOPQRSTUVWXYZ'' ''abcdefghijklmnopqrstuvwxyz'') c of
                None \<Rightarrow> c | Some l \<Rightarrow> l)"

definition name_char :: "char \<Rightarrow> bool" where
  "name_char c \<longleftrightarrow>
     c \<in> set ''abcdefghijklmnopqrstuvwxyzABCDEFGHIJKLMNOPQRSTUVWXYZ0123456789_''"

definition unresolved :: "string \<Rightarrow> bool" where
  "unresolved k \<longleftrightarrow>
     k \<noteq> [] \<and> list_all name_char k \<and> hd k \<notin> set ''0123456789'' \<and>
     map lower k \<notin> set (task_columns @ [''rowid'', ''oid'', ''_rowid_''])"

typedef unknown_key = "{k. unresolved k}"
  morphisms name_of Unknown_key
proof
  show "''foo'' \<in> {k. unresolved k}"
    by (simp add: unresolved_def name_char_def lower_def task_columns_def)
qed

text \<open>
  \<^verbatim>\<open>updateTask(id, updates)\<close>. The argument is a JavaScript object, an insertion-ordered
  list of keys with values. A key that is the name of a column, spelled as the table
  spells it, comes with a value of the column's type; \<open>Set_id\<close> and \<open>Set_created_at\<close> are
  keys the type \<^verbatim>\<open>Partial<Omit<Task, "id" | "created_at">>\<close> leaves out but a request body
  can carry; \<open>Set_unknown k\<close> is a key that SQLite resolves to no column. Keys of any
  other kind (a column name in another letter case, an alias of the row id, a text that
  is more than a name) are not values of this type.
\<close>

datatype field_update =
    Set_title string
  | Set_description "string option"
  | Set_day string
  | Set_priority int
  | Set_completed bool
  | Set_updated_at string
  | Set_id string
  | Set_created_at string
  | Set_unknown unknown_key

fun key :: "field_update \<Rightarrow> string" where
  "key (Set_title _) = ''title''"
| "key (Set_description _) = ''description''"
| "key (Set_day _) = ''day''"
| "key (Set_priority _) = ''priority''"
| "key (Set_completed _) = ''completed''"
| "key (Set_updated_at _) = ''updated_at''"
| "key (Set_id _) = ''id''"
| "key (Set_created_at _) = ''created_at''"
| "key (Set_unknown k) = name_of k"


fun join :: "string \<Rightarrow> string list \<Rightarrow> string" where
  "join sep [] = []"
| "join sep [x] = x"
| "join sep (x # y # ys) = x @ sep @ join sep (y # ys)"

text \<open>
  \<^verbatim>\<open>const fields = Object.keys(updates).map(key => `${key} = $${key}`).join(", ")\<close>
  (named \<open>fields_sql\<close>, since every record declares a constant \<open>fields\<close>).
\<close>

definition fields_sql :: "field_update list \<Rightarrow> string" where
  "fields_sql updates = join '', '' (map (\<lambda>k. k @ '' = $'' @ k) (map key updates))"

text \<open>\<^verbatim>\<open>`UPDATE tasks SET ${fields}, updated_at = $updated_at WHERE id = $id`\<close>\<close>

definition update_sql :: "field_update list \<Rightarrow> string" where
  "update_sql updates =
     ''UPDATE tasks SET '' @ fields_sql updates @ '', updated_at = $updated_at WHERE id = $id''"

text \<open>
  The parameter object is \<^verbatim>\<open>{$id: id, $updated_at: updated_at, ...entries}\<close>: an entry of
  \<open>updates\<close> under the key \<^verbatim>\<open>id\<close> or \<^verbatim>\<open>updated_at\<close> overrides the first two bindings.
\<close>

definition param_id :: "string \<Rightarrow> field_update list \<Rightarrow> string" where
  "param_id i updates = fold (\<lambda>u acc. case u of Set_id x \<Rightarrow> x | _ \<Rightarrow> acc) updates i"

definition param_updated_at :: "string \<Rightarrow> field_update list \<Rightarrow> string" where
  "param_updated_at now updates =
     fold (\<lambda>u acc. case u of Set_updated_at x \<Rightarrow> x | _ \<Rightarrow> acc) updates now"

text \<open>One assignment \<^verbatim>\<open>column = $column\<close> of the \<^verbatim>\<open>SET\<close> clause, on one row.\<close>

fun assign :: "field_update \<Rightarrow> Task \<Rightarrow> Task" where
  "assign (Set_title x) t = t\<lparr>title := x\<rparr>"
| "assign (Set_description x) t = t\<lparr>description := x\<rparr>"
| "assign (Set_day x) t = t\<lparr>day := x\<rparr>"
| "assign (Set_priority x) t = t\<lparr>priority := x\<rparr>"
| "assign (Set_completed x) t = t\<lparr>completed := x\<rparr>"
| "assign (Set_updated_at x) t = t\<lparr>updated_at := x\<rparr>"
| "assign (Set_id x) t = t\<lparr>id_task := x\<rparr>"
| "assign (Set_created_at x) t = t\<lparr>created_at := x\<rparr>"
| "assign (Set_unknown k) t = t"

text \<open>
  \<^verbatim>\<open>this.db.query(sql)\<close>: the store reads the text of the statement. The text is cut into
  words at the blanks; after \<^verbatim>\<open>UPDATE tasks SET\<close> come the assignments, each a column, the
  sign \<^verbatim>\<open>=\<close> and the parameter named like the column, with a comma after every assignment
  but the last, and then \<^verbatim>\<open>WHERE id = $id\<close>. The result is the list of the columns that
  the \<^verbatim>\<open>SET\<close> clause assigns, from left to right. A text of another form is a syntax error
  (so is the \<^verbatim>\<open>SET\<close> clause that begins with a comma, which \<open>updates = {}\<close> would give), and
  a name in the \<^verbatim>\<open>SET\<close> clause that is no column of the table is refused.
\<close>

fun words_from :: "string \<Rightarrow> string \<Rightarrow> string list" where
  "words_from cur [] = [cur]"
| "words_from cur (c # cs) =
     (if c = CHR '' '' then cur # words_from [] cs else words_from (cur @ [c]) cs)"

definition words :: "string \<Rightarrow> string list" where
  "words sql = words_from [] sql"

fun parse_set :: "string list \<Rightarrow> string list option" where
  "parse_set (col # eq # param # ws) =
     (if eq \<noteq> ''='' then None
      else if param = ''$'' @ col @ '','' then map_option (Cons col) (parse_set ws)
      else if param = ''$'' @ col \<and> ws = [''WHERE'', ''id'', ''='', ''$id''] then Some [col]
      else None)"
| "parse_set ws = None"

definition query :: "string \<Rightarrow> error + string list" where
  "query sql =
     (case words sql of
        w1 # w2 # w3 # ws \<Rightarrow>
          if w1 = ''UPDATE'' \<and> w2 = ''tasks'' \<and> w3 = ''SET''
          then (case parse_set ws of
                  None \<Rightarrow> Inl StoreError
                | Some cols \<Rightarrow>
                    if \<exists>col \<in> set cols. col \<notin> set task_columns then Inl StoreError
                    else Inr cols)
          else Inl StoreError
      | _ \<Rightarrow> Inl StoreError)"

text \<open>
  \<^verbatim>\<open>query.run(params)\<close> on the statement \<open>update_sql updates\<close>: when the store accepts the
  text, every row whose id equals the parameter \<^verbatim>\<open>$id\<close> gets the assignments of the \<^verbatim>\<open>SET\<close>
  clause from left to right, each column taking the value bound to the parameter of its
  name, the last one being \<^verbatim>\<open>updated_at = $updated_at\<close>. (Where \<^verbatim>\<open>id\<close> is assigned, it is
  assigned the value the \<^verbatim>\<open>WHERE\<close> clause selected the row by, so the primary key cannot
  be violated.)
\<close>

definition run_update :: "Task list \<Rightarrow> string \<Rightarrow> string \<Rightarrow> field_update list \<Rightarrow> error + Task list" where
  "run_update rows i now updates =
     (case query (update_sql updates) of
        Inl e \<Rightarrow> Inl e
      | Inr cols \<Rightarrow>
          Inr (map (\<lambda>t. if id_task t = param_id i updates
                          then (fold assign updates t)\<lparr>updated_at := param_updated_at now updates\<rparr>
                          else t) rows))"

definition updateTask ::
  "TodoDatabase \<Rightarrow> string \<Rightarrow> string \<Rightarrow> field_update list \<Rightarrow> error + (Task option \<times> TodoDatabase)" where
  "updateTask db now i updates =
     (if length (fields_sql updates) = 0 then Inr (getTask db i, db)
      else case run_update (tasks db) i now updates of
             Inl e \<Rightarrow> Inl e
           | Inr rows \<Rightarrow> (let db' = db\<lparr>tasks := rows\<rparr> in Inr (getTask db' i, db')))"

text \<open>
  \<^verbatim>\<open>DELETE FROM tasks WHERE id = $id\<close>; \<^verbatim>\<open>result.changes\<close> counts the deleted task rows.
  With foreign keys enforced, \<^verbatim>\<open>ON DELETE SET NULL\<close> clears \<^verbatim>\<open>task_id\<close> in the sessions
  that refer to a deleted task.
\<close>

definition deleteTask :: "TodoDatabase \<Rightarrow> string \<Rightarrow> bool \<times> TodoDatabase" where
  "deleteTask db i =
     (let changes = length (filter (\<lambda>t. id_task t = i) (tasks db));
          sessions = (if foreign_keys db \<and> changes > 0
                      then map (\<lambda>s. if task_id s = Some i then s\<lparr>task_id := None\<rparr> else s)
                             (pomodoro_sessions db)
                      else pomodoro_sessions db)
      in (changes > 0,
          db\<lparr>tasks := filter (\<lambda>t. id_task t \<noteq> i) (tasks db), pomodoro_sessions := sessions\<rparr>))"

text \<open>
  \<^verbatim>\<open>reorderTasks(day, taskIds)\<close>: for each id with its index,
  \<^verbatim>\<open>UPDATE tasks SET priority = $priority WHERE id = $id\<close> with \<^verbatim>\<open>$priority = index + 1\<close>.
  The argument \<^verbatim>\<open>day\<close> is not used. No statement of the transaction can fail.
\<close>

definition set_priority :: "string \<Rightarrow> int \<Rightarrow> Task list \<Rightarrow> Task list" where
  "set_priority i p rows = map (\<lambda>t. if id_task t = i then t\<lparr>priority := p\<rparr> else t) rows"

fun forEach_reorder :: "nat \<Rightarrow> string list \<Rightarrow> Task list \<Rightarrow> Task list" where
  "forEach_reorder index [] rows = rows"
| "forEach_reorder index (i # ids) rows =
     forEach_reorder (Suc index) ids (set_priority i (int index + 1) rows)"

definition reorderTasks :: "TodoDatabase \<Rightarrow> string \<Rightarrow> string list \<Rightarrow> TodoDatabase" where
  "reorderTasks db d taskIds = db\<lparr>tasks := forEach_reorder 0 taskIds (tasks db)\<rparr>"

section \<open>Pomodoro operations\<close>

text \<open>
  \<^verbatim>\<open>createPomodoroSession\<close>: the \<^verbatim>\<open>INSERT\<close> throws when the primary key is taken and,
  with foreign keys enforced, when \<^verbatim>\<open>task_id\<close> names no task.
\<close>

definition createPomodoroSession ::
  "TodoDatabase \<Rightarrow> string \<Rightarrow> string option \<Rightarrow> int \<Rightarrow> string \<Rightarrow> string option \<Rightarrow> session_type
     \<Rightarrow> error + (PomodoroSession \<times> TodoDatabase)" where
  "createPomodoroSession db uuid tsk dur started finished ty =
     (let newSession = \<lparr>id_session = uuid, task_id = tsk, duration = dur, started_at = started,
                         completed_at = finished, type_session = ty\<rparr>
      in if uuid \<in> set (map id_session (pomodoro_sessions db)) then Inl StoreError
         else if foreign_keys db \<and> (case tsk of None \<Rightarrow> False
                                     | Some x \<Rightarrow> x \<notin> set (map id_task (tasks db)))
         then Inl StoreError
         else Inr (newSession, db\<lparr>pomodoro_sessions := pomodoro_sessions db @ [newSession]\<rparr>))"

definition completePomodoroSession ::
  "TodoDatabase \<Rightarrow> string \<Rightarrow> string \<Rightarrow> PomodoroSession option \<times> TodoDatabase" where
  "completePomodoroSession db now i =
     (let db' = db\<lparr>pomodoro_sessions :=
                     map (\<lambda>s. if id_session s = i then s\<lparr>completed_at := Some now\<rparr> else s)
                       (pomodoro_sessions db)\<rparr>
      in (find (\<lambda>s. id_session s = i) (pomodoro_sessions db'), db'))"

section \<open>Request handlers (src/index.tsx)\<close>

text \<open>
  The server: the store and the messages handed to \<^verbatim>\<open>server.publish\<close>, oldest first,
  each with its topic.
\<close>

datatype event =
    task_created Task
  | task_updated Task
  | task_deleted string
  | tasks_reordered string "string list"
  | session_started PomodoroSession
  | session_completed PomodoroSession

record Server =
  db :: TodoDatabase
  published :: "(string \<times> event) list"

datatype payload =
    Task_payload Task
  | Session_payload PomodoroSession
  | Success_payload
  | Error_payload string

record Response =
  status :: nat
  body :: payload

definition json :: "payload \<Rightarrow> Response" where
  "json p = \<lparr>status = 200, body = p\<rparr>"

definition json_status :: "payload \<Rightarrow> nat \<Rightarrow> Response" where
  "json_status p st = \<lparr>status = st, body = p\<rparr>"

definition publish :: "Server \<Rightarrow> string \<Rightarrow> event \<Rightarrow> Server" where
  "publish srv topic e = srv\<lparr>published := published srv @ [(topic, e)]\<rparr>"

text \<open>
  \<^verbatim>\<open>!x\<close> on a string that may be missing: true for \<^verbatim>\<open>undefined\<close> and for the empty string.
\<close>

definition falsy :: "string option \<Rightarrow> bool" where
  "falsy x = (case x of None \<Rightarrow> True | Some s \<Rightarrow> s = [])"

text \<open>
  A request body is \<open>None\<close> when \<^verbatim>\<open>req.json()\<close> rejects; the handler's \<^verbatim>\<open>catch\<close> answers 500,
  as it does for every exception of the store.
\<close>

datatype create_body = Create_body (title_of: "string option") (description_of: "string option")
  (day_of: "string option")

definition POST_tasks :: "Server \<Rightarrow> string \<Rightarrow> string \<Rightarrow> create_body option \<Rightarrow> Response \<times> Server" where
  "POST_tasks srv uuid now req =
     (case req of
        None \<Rightarrow> (json_status (Error_payload ''Failed to create task'') 500, srv)
      | Some b \<Rightarrow>
          if falsy (title_of b) \<or> falsy (day_of b)
          then (json_status (Error_payload ''Title and day are required'') 400, srv)
          else (case createTask (db srv) uuid now (the (title_of b)) (description_of b)
                       (the (day_of b)) 1 False of
                  Inl e \<Rightarrow> (json_status (Error_payload ''Failed to create task'') 500, srv)
                | Inr (task, db') \<Rightarrow>
                    (json (Task_payload task),
                     publish (srv\<lparr>db := db'\<rparr>) ''tasks'' (task_created task))))"

definition PUT_task :: "Server \<Rightarrow> string \<Rightarrow> string \<Rightarrow> field_update list option \<Rightarrow> Response \<times> Server" where
  "PUT_task srv now i req =
     (case req of
        None \<Rightarrow> (json_status (Error_payload ''Failed to update task'') 500, srv)
      | Some updates \<Rightarrow>
          (case updateTask (db srv) now i updates of
             Inl e \<Rightarrow> (json_status (Error_payload ''Failed to update task'') 500, srv)
           | Inr (None, db') \<Rightarrow>
               (json_status (Error_payload ''Task not found'') 404, srv\<lparr>db := db'\<rparr>)
           | Inr (Some task, db') \<Rightarrow>
               (json (Task_payload task),
                publish (srv\<lparr>db := db'\<rparr>) ''tasks'' (task_updated task))))"

definition DELETE_task :: "Server \<Rightarrow> string \<Rightarrow> Response \<times> Server" where
  "DELETE_task srv i =
     (case deleteTask (db srv) i of
        (False, db') \<Rightarrow> (json_status (Error_payload ''Task not found'') 404, srv\<lparr>db := db'\<rparr>)
      | (True, db') \<Rightarrow>
          (json Success_payload, publish (srv\<lparr>db := db'\<rparr>) ''tasks'' (task_deleted i)))"






section \<open>The timer's state machine (src/components/PomodoroTimer.tsx)\<close>

text \<open>
  \<open>sessionCount\<close> starts at 0 and is only ever incremented, so it is a natural number.
\<close>

record PomodoroState =
  timeLeft :: nat
  isRunning :: bool
  currentType :: session_type
  sessionCount :: nat
  currentSessionId :: "string option"

fun TIMER_DURATIONS :: "session_type \<Rightarrow> nat" where
  "TIMER_DURATIONS work = 25 * 60"
| "TIMER_DURATIONS short_break = 5 * 60"
| "TIMER_DURATIONS long_break = 15 * 60"

definition initialState :: PomodoroState where
  "initialState = \<lparr>timeLeft = TIMER_DURATIONS work, isRunning = False, currentType = work,
                    sessionCount = 0, currentSessionId = None\<rparr>"

text \<open>
  \<^verbatim>\<open>completeSession\<close>: the request to the server is best effort (its failure is caught and
  logged) and does not enter the next state.
\<close>

definition completeSession :: "PomodoroState \<Rightarrow> PomodoroState" where
  "completeSession state =
     (let newSessionCount =
            (if currentType state = work then sessionCount state + 1 else sessionCount state);
          nextType =
            (if currentType state = work
             then (if newSessionCount mod 4 = 0 then long_break else short_break)
             else work)
      in \<lparr>timeLeft = TIMER_DURATIONS nextType, isRunning = False, currentType = nextType,
          sessionCount = newSessionCount, currentSessionId = None\<rparr>)"

section \<open>Auxiliary definitions\<close>

text \<open>The weekday tokens (\<^verbatim>\<open>DAYS\<close>, declared on the client side only).\<close>

definition DAYS :: "string list" where
  "DAYS = [''monday'', ''tuesday'', ''wednesday'', ''thursday'', ''friday'', ''saturday'',
           ''sunday'']"


text \<open>The value a field set of type \<^verbatim>\<open>Partial<Omit<Task, "id" | "created_at">>\<close> can hold.\<close>

fun mutable :: "field_update \<Rightarrow> bool" where
  "mutable (Set_id _) = False"
| "mutable (Set_created_at _) = False"
| "mutable (Set_unknown _) = False"
| "mutable _ = True"

text \<open>What the loop of \<^verbatim>\<open>reorderTasks\<close> does to a single row.\<close>

fun reprioritise :: "nat \<Rightarrow> string list \<Rightarrow> Task \<Rightarrow> Task" where
  "reprioritise n [] t = t"
| "reprioritise n (i # ids) t =
     reprioritise (Suc n) ids (if id_task t = i then t\<lparr>priority := int n + 1\<rparr> else t)"

text \<open>
  A store to run the operations on: three tasks on Monday, created in the order A, B, C,
  and one work session that refers to task A. It is the store that \<open>init\<close> and four
  creations give (lemma \<open>example_db_reached\<close>).
\<close>

definition task_A :: Task where
  "task_A = \<lparr>id_task = ''A'', title = ''Write spec'', description = None, day = ''monday'',
             priority = 1, completed = False,
             created_at = ''2024-01-01T09:00:00.000Z'',
             updated_at = ''2024-01-01T09:00:00.000Z''\<rparr>"

definition task_B :: Task where
  "task_B = \<lparr>id_task = ''B'', title = ''Review'', description = Some ''second'', day = ''monday'',
             priority = 1, completed = False,
             created_at = ''2024-01-01T09:01:00.000Z'',
             updated_at = ''2024-01-01T09:01:00.000Z''\<rparr>"

definition task_C :: Task where
  "task_C = \<lparr>id_task = ''C'', title = ''Ship'', description = None, day = ''monday'',
             priority = 1, completed = False,
             created_at = ''2024-01-01T09:02:00.000Z'',
             updated_at = ''2024-01-01T09:02:00.000Z''\<rparr>"

definition session_S :: PomodoroSession where
  "session_S = \<lparr>id_session = ''S'', task_id = Some ''A'', duration = 1500,
                started_at = ''2024-01-01T10:00:00.000Z'', completed_at = None,
                type_session = work\<rparr>"

text \<open>A time of call later than every timestamp of the example store.\<close>

definition now1 :: string where "now1 = ''2024-06-01T00:00:00.000Z''"


text \<open>
  The store after an operation that can throw: the one it returns, or the store as it
  was when the statement failed.
\<close>

definition after :: "error + ('a \<times> TodoDatabase) \<Rightarrow> TodoDatabase \<Rightarrow> TodoDatabase" where
  "after r D = (case r of Inl e \<Rightarrow> D | Inr (x, D') \<Rightarrow> D')"

definition example_db :: TodoDatabase where
  "example_db = \<lparr>tasks = [task_A, task_B, task_C], pomodoro_sessions = [session_S],
                 foreign_keys = False\<rparr>"

definition example_server :: Server where
  "example_server = \<lparr>db = example_db, published = []\<rparr>"


lemmas example_defs =
  example_server_def example_db_def task_A_def task_B_def task_C_def session_S_def

section \<open>The timer: which session follows which\<close>

lemma completeSession_pair:
  "currentType st = work \<Longrightarrow>
   currentType (completeSession (completeSession st)) = work \<and>
   sessionCount (completeSession (completeSession st)) = sessionCount st + 1"
  by (simp add: completeSession_def Let_def)

text \<open>From the initial state, completions alternate work and break: after \<open>2 * k\<close> of them
  the timer is back on work with \<open>k\<close> work sessions counted.\<close>

lemma completeSession_even:
  "currentType ((completeSession ^^ (2 * k)) initialState) = work \<and>
   sessionCount ((completeSession ^^ (2 * k)) initialState) = k"
proof (induction k)
  case 0
  show ?case by (simp add: initialState_def)
next
  case (Suc k)
  have "2 * Suc k = Suc (Suc (2 * k))" by simp
  then show ?case using Suc completeSession_pair by simp
qed

text \<open>
  Claim C8. In every state of the timer, completing a work session adds one to the
  counter and selects \<open>long_break\<close> exactly when the new counter is a multiple of 4,
  \<open>short_break\<close> otherwise; completing a break leaves the counter alone and selects
  \<open>work\<close>. Started from the initial state, the \<open>k\<close>-th work completion (which is
  completion number \<open>2 * k - 1\<close>) leaves the counter at \<open>k\<close> and selects \<open>long_break\<close> when
  \<open>k\<close> is a multiple of 4 and \<open>short_break\<close> otherwise: short breaks after work sessions
  1 to 3, the long break after the 4th.
\<close>

theorem completeSession_next_type:
  "(currentType st = work \<longrightarrow>
      sessionCount (completeSession st) = sessionCount st + 1 \<and>
      currentType (completeSession st) =
        (if sessionCount (completeSession st) mod 4 = 0 then long_break else short_break)) \<and>
   (currentType st \<noteq> work \<longrightarrow>
      sessionCount (completeSession st) = sessionCount st \<and>
      currentType (completeSession st) = work) \<and>
   (0 < k \<longrightarrow>
      sessionCount ((completeSession ^^ (2 * k - 1)) initialState) = k \<and>
      currentType ((completeSession ^^ (2 * k - 1)) initialState) =
        (if k mod 4 = 0 then long_break else short_break))"
proof (intro conjI impI)
  assume k: "0 < k"
  then obtain j where j: "k = Suc j" by (cases k) auto
  have n: "2 * k - 1 = Suc (2 * j)" using j by simp
  let ?s = "(completeSession ^^ (2 * j)) initialState"
  have s: "currentType ?s = work" "sessionCount ?s = j" using completeSession_even by auto
  show "sessionCount ((completeSession ^^ (2 * k - 1)) initialState) = k"
    unfolding n using s j by (simp add: completeSession_def Let_def)
  show "currentType ((completeSession ^^ (2 * k - 1)) initialState) =
        (if k mod 4 = 0 then long_break else short_break)"
    unfolding n using s j by (simp add: completeSession_def Let_def)
qed (simp_all add: completeSession_def Let_def)

theorem completeSession_next_type_witness:
  "currentType initialState = work \<and>
   currentType (completeSession initialState) = short_break \<and>
   sessionCount (completeSession initialState) = 1 \<and>
   currentType (completeSession initialState) \<noteq> work \<and>
   currentType (completeSession (completeSession initialState)) = work \<and>
   sessionCount (completeSession (completeSession initialState)) = 1 \<and>
   currentType ((completeSession ^^ 1) initialState) = short_break \<and>
   currentType ((completeSession ^^ 3) initialState) = short_break \<and>
   currentType ((completeSession ^^ 5) initialState) = short_break \<and>
   currentType ((completeSession ^^ 7) initialState) = long_break \<and>
   sessionCount ((completeSession ^^ 7) initialState) = 4"
  using completeSession_next_type [of initialState 1]
    completeSession_next_type [of "completeSession initialState" 2]
    completeSession_next_type [of initialState 3]
    completeSession_next_type [of initialState 4]
  by (simp add: initialState_def)

section \<open>The statement the store reads\<close>


lemma name_of_unresolved: "unresolved (name_of k)"
  using name_of [of k] by simp


lemma key_no_blank: "CHR '' '' \<notin> set (key u)"
proof (cases u)
  case (Set_unknown k)
  have "list_all name_char (name_of k)" using name_of_unresolved [of k] by (simp add: unresolved_def)
  moreover have "\<not> name_char (CHR '' '')" by (simp add: name_char_def)
  ultimately show ?thesis using Set_unknown by (auto simp: list_all_iff)
qed simp_all


lemma words_from_word:
  "CHR '' '' \<notin> set w \<Longrightarrow> words_from cur (w @ CHR '' '' # rest) = (cur @ w) # words_from [] rest"
  by (induction w arbitrary: cur) auto

lemma words_from_last: "CHR '' '' \<notin> set w \<Longrightarrow> words_from cur w = [cur @ w]"
  by (induction w arbitrary: cur) auto

lemma join_then_sep:
  "xs \<noteq> [] \<Longrightarrow> join sep xs @ sep @ rest = concat (map (\<lambda>x. x @ sep) xs) @ rest"
  by (induction sep xs rule: join.induct) auto

text \<open>The words of one assignment, followed by the words of the rest.\<close>

lemma words_assignment:
  assumes "CHR '' '' \<notin> set k"
  shows "words_from [] ((k @ '' = $'' @ k) @ '', '' @ rest) =
           k # ''='' # (''$'' @ k @ '','') # words_from [] rest"
proof -
  let ?r2 = "(''$'' @ k @ '','') @ CHR '' '' # rest"
  let ?r1 = "''='' @ CHR '' '' # ?r2"
  have e: "(k @ '' = $'' @ k) @ '', '' @ rest = k @ CHR '' '' # ?r1" by simp
  have 1: "words_from [] (k @ CHR '' '' # ?r1) = k # words_from [] ?r1"
    using words_from_word [OF assms, of "[]" ?r1] by simp
  have 2: "words_from [] ?r1 = ''='' # words_from [] ?r2"
    using words_from_word [of "''=''" "[]" ?r2] by simp
  have "CHR '' '' \<notin> set (''$'' @ k @ '','')" using assms by simp
  then have 3: "words_from [] ?r2 = (''$'' @ k @ '','') # words_from [] rest"
    using words_from_word [of "''$'' @ k @ '',''" "[]" rest] by simp
  show ?thesis unfolding e 1 2 3 ..
qed

lemma words_assignments:
  assumes "\<forall>k \<in> set ks. CHR '' '' \<notin> set k"
  shows "words_from [] (concat (map (\<lambda>x. x @ '', '') (map (\<lambda>k. k @ '' = $'' @ k) ks)) @ rest) =
           concat (map (\<lambda>k. [k, ''='', ''$'' @ k @ '','']) ks) @ words_from [] rest"
  using assms
proof (induction ks)
  case Nil
  show ?case by simp
next
  case (Cons k ks)
  have "words_from [] (concat (map (\<lambda>x. x @ '', '') (map (\<lambda>k. k @ '' = $'' @ k) (k # ks))) @ rest) =
        words_from [] ((k @ '' = $'' @ k) @ '', '' @
          (concat (map (\<lambda>x. x @ '', '') (map (\<lambda>k. k @ '' = $'' @ k) ks)) @ rest))"
    by simp
  also have "\<dots> = k # ''='' # (''$'' @ k @ '','') #
      words_from [] (concat (map (\<lambda>x. x @ '', '') (map (\<lambda>k. k @ '' = $'' @ k) ks)) @ rest)"
    using Cons.prems by (intro words_assignment) simp
  finally show ?case using Cons by simp
qed

lemma parse_set_assignments:
  "parse_set (concat (map (\<lambda>k. [k, ''='', ''$'' @ k @ '','']) ks) @
      [c, ''='', ''$'' @ c, ''WHERE'', ''id'', ''='', ''$id'']) = Some (ks @ [c])"
  by (induction ks) auto

lemma words_tail:
  "words_from [] ''updated_at = $updated_at WHERE id = $id'' =
     [''updated_at'', ''='', ''$updated_at'', ''WHERE'', ''id'', ''='', ''$id'']"
  by simp

lemma words_update_sql:
  assumes "us \<noteq> []"
  shows "words (update_sql us) =
     [''UPDATE'', ''tasks'', ''SET''] @ concat (map (\<lambda>k. [k, ''='', ''$'' @ k @ '','']) (map key us)) @
     [''updated_at'', ''='', ''$updated_at'', ''WHERE'', ''id'', ''='', ''$id'']"
proof -
  let ?items = "map (\<lambda>k. k @ '' = $'' @ k) (map key us)"
  have ne: "?items \<noteq> []" using assms by simp
  have "update_sql us = ''UPDATE tasks SET '' @
      (join '', '' ?items @ '', '' @ ''updated_at = $updated_at WHERE id = $id'')"
    by (simp add: update_sql_def fields_sql_def)
  also have "\<dots> = ''UPDATE tasks SET '' @
      (concat (map (\<lambda>x. x @ '', '') ?items) @ ''updated_at = $updated_at WHERE id = $id'')"
    by (simp only: join_then_sep [OF ne])
  finally have t: "update_sql us = ''UPDATE tasks SET '' @
      (concat (map (\<lambda>x. x @ '', '') ?items) @ ''updated_at = $updated_at WHERE id = $id'')" .
  have head: "words_from [] (''UPDATE tasks SET '' @ r) =
      ''UPDATE'' # ''tasks'' # ''SET'' # words_from [] r" for r
    by simp
  have "\<forall>k \<in> set (map key us). CHR '' '' \<notin> set k" by (simp add: key_no_blank)
  from words_assignments [OF this, of "''updated_at = $updated_at WHERE id = $id''"]
  show ?thesis unfolding words_def t head words_tail by simp
qed

lemma query_update_sql:
  assumes "us \<noteq> []"
  shows "query (update_sql us) =
     (if \<exists>u \<in> set us. key u \<notin> set task_columns then Inl StoreError
      else Inr (map key us @ [''updated_at'']))"
proof -
  have "parse_set (concat (map (\<lambda>k. [k, ''='', ''$'' @ k @ '','']) (map key us)) @
      [''updated_at'', ''='', ''$updated_at'', ''WHERE'', ''id'', ''='', ''$id'']) =
      Some (map key us @ [''updated_at''])"
    using parse_set_assignments [of "map key us" "''updated_at''"] by simp
  then show ?thesis
    by (simp add: query_def words_update_sql [OF assms] task_columns_def)
qed

lemma query_empty_set_clause: "query (update_sql []) = Inl StoreError"
  by (simp add: query_def words_def update_sql_def fields_sql_def)

lemma run_update_eq:
  assumes "us \<noteq> []"
  shows "run_update rows i now us =
     (if \<exists>u \<in> set us. key u \<notin> set task_columns then Inl StoreError
      else Inr (map (\<lambda>t. if id_task t = param_id i us
                          then (fold assign us t)\<lparr>updated_at := param_updated_at now us\<rparr>
                          else t) rows))"
  by (simp add: run_update_def query_update_sql [OF assms])

section \<open>Deleting a task\<close>

lemma getTask_None_iff: "getTask D i = None \<longleftrightarrow> i \<notin> set (map id_task (tasks D))"
  by (auto simp: getTask_def find_None_iff)

lemma deleteTask_changes: "fst (deleteTask D i) \<longleftrightarrow> getTask D i \<noteq> None"
  by (auto simp: deleteTask_def Let_def getTask_def find_None_iff filter_empty_conv)

lemma deleteTask_tasks: "tasks (snd (deleteTask D i)) = filter (\<lambda>t. id_task t \<noteq> i) (tasks D)"
  by (simp add: deleteTask_def Let_def)

lemma deleteTask_removes: "getTask (snd (deleteTask D i)) i = None"
  by (auto simp: getTask_None_iff deleteTask_tasks)

lemma deleteTask_session_ids:
  "map id_session (pomodoro_sessions (snd (deleteTask D i))) = map id_session (pomodoro_sessions D)"
  by (simp add: deleteTask_def Let_def comp_def)

lemma deleteTask_sessions_fk:
  "foreign_keys D \<Longrightarrow> getTask D i \<noteq> None \<Longrightarrow>
   pomodoro_sessions (snd (deleteTask D i)) =
     map (\<lambda>s. if task_id s = Some i then s\<lparr>task_id := None\<rparr> else s) (pomodoro_sessions D)"
  using deleteTask_changes [of D i] by (simp add: deleteTask_def Let_def)

text \<open>Without enforcement the sessions are left as they are, the reference included.\<close>

lemma deleteTask_sessions_no_fk:
  "\<not> foreign_keys D \<Longrightarrow> pomodoro_sessions (snd (deleteTask D i)) = pomodoro_sessions D"
  by (simp add: deleteTask_def Let_def)

lemma DELETE_task_status:
  "status (fst (DELETE_task s i)) = (if fst (deleteTask (db s) i) then 200 else 404)"
  by (cases "deleteTask (db s) i")
    (auto simp: DELETE_task_def json_def json_status_def split: bool.splits)

lemma DELETE_task_db: "db (snd (DELETE_task s i)) = snd (deleteTask (db s) i)"
  by (cases "deleteTask (db s) i") (auto simp: DELETE_task_def publish_def split: bool.splits)


text \<open>
  Enforcement is off in the store that \<open>init\<close> gives, and no operation switches it on.
\<close>

lemma foreign_keys_off:
  "\<not> foreign_keys init"
  "foreign_keys (after (createTask D uuid now ttl descr d prio compl) D) = foreign_keys D"
  "foreign_keys (after (updateTask D now i us) D) = foreign_keys D"
  "foreign_keys (snd (deleteTask D i)) = foreign_keys D"
  "foreign_keys (reorderTasks D d ids) = foreign_keys D"
  "foreign_keys (after (createPomodoroSession D uuid tsk dur started fin ty) D) = foreign_keys D"
  "foreign_keys (snd (completePomodoroSession D now i)) = foreign_keys D"
  by (auto simp: init_def after_def createTask_def updateTask_def deleteTask_def reorderTasks_def
      createPomodoroSession_def completePomodoroSession_def Let_def split: sum.splits if_splits)

text \<open>The example store is what \<open>init\<close>, three \<open>createTask\<close> and one
  \<open>createPomodoroSession\<close> give.\<close>

lemma example_db_reached:
  "(let D1 = after (createTask init ''A'' ''2024-01-01T09:00:00.000Z'' ''Write spec'' None
                      ''monday'' 1 False) init;
        D2 = after (createTask D1 ''B'' ''2024-01-01T09:01:00.000Z'' ''Review'' (Some ''second'')
                      ''monday'' 1 False) D1;
        D3 = after (createTask D2 ''C'' ''2024-01-01T09:02:00.000Z'' ''Ship'' None
                      ''monday'' 1 False) D2
    in after (createPomodoroSession D3 ''S'' (Some ''A'') 1500 ''2024-01-01T10:00:00.000Z'' None
                work) D3) = example_db"
  by (simp add: Let_def after_def createTask_def createPomodoroSession_def init_def example_defs)

text \<open>
  Claim C2 fails on the code. The table declares \<^verbatim>\<open>ON DELETE SET NULL\<close>, but the store
  never enforces foreign keys, so the clause does not act: deleting task A, to which
  session S refers, succeeds and removes the task row, and leaves session S in the table
  as it was, its \<open>task_id\<close> still naming the deleted task. (No session row is deleted:
  \<open>deleteTask_session_ids\<close>.)
\<close>

theorem deleteTask_keeps_reference:
  "\<not> foreign_keys example_db \<and>
   getTask example_db ''A'' = Some task_A \<and>
   task_id session_S = Some ''A'' \<and>
   deleteTask example_db ''A'' = (True, example_db\<lparr>tasks := [task_B, task_C]\<rparr>) \<and>
   getTask (snd (deleteTask example_db ''A'')) ''A'' = None \<and>
   pomodoro_sessions (snd (deleteTask example_db ''A'')) = [session_S] \<and>
   map task_id (pomodoro_sessions (snd (deleteTask example_db ''A''))) = [Some ''A'']"
  by (simp add: deleteTask_def getTask_def Let_def example_defs)

text \<open>
  Claim C7. Deleting a stored task succeeds and removes the row, and deleting the same id
  again reports not found: the handler answers 200 and then 404. Deleting an id that is
  not stored never reports success.
\<close>

theorem deleteTask_twice:
  "(getTask (db srv) i \<noteq> None \<longrightarrow>
      fst (deleteTask (db srv) i) \<and>
      getTask (snd (deleteTask (db srv) i)) i = None \<and>
      \<not> fst (deleteTask (snd (deleteTask (db srv) i)) i) \<and>
      status (fst (DELETE_task srv i)) = 200 \<and>
      status (fst (DELETE_task (snd (DELETE_task srv i)) i)) = 404) \<and>
   (getTask (db srv) i = None \<longrightarrow>
      \<not> fst (deleteTask (db srv) i) \<and> status (fst (DELETE_task srv i)) = 404)"
  by (simp add: DELETE_task_status DELETE_task_db deleteTask_changes deleteTask_removes)

theorem deleteTask_twice_witness:
  "getTask (db example_server) ''B'' \<noteq> None \<and>
   status (fst (DELETE_task example_server ''B'')) = 200 \<and>
   status (fst (DELETE_task (snd (DELETE_task example_server ''B'')) ''B'')) = 404 \<and>
   getTask (db example_server) ''Z'' = None \<and>
   status (fst (DELETE_task example_server ''Z'')) = 404"
  using deleteTask_twice [of example_server "''B''"]
    deleteTask_twice [of example_server "''Z''"]
  by (simp add: example_defs getTask_def)

section \<open>Reordering a day\<close>

lemma forEach_reorder_map: "forEach_reorder n ids rows = map (reprioritise n ids) rows"
proof (induction ids arbitrary: n rows)
  case Nil
  show ?case by (simp add: map_idI)
next
  case (Cons i ids)
  show ?case by (simp add: Cons set_priority_def comp_def)
qed

lemma reprioritise_more:
  "id_task (reprioritise n ids t) = id_task t \<and> day (reprioritise n ids t) = day t \<and>
   created_at (reprioritise n ids t) = created_at t"
  by (induction ids arbitrary: n t) simp_all

lemma reprioritise_absent: "id_task t \<notin> set ids \<Longrightarrow> reprioritise n ids t = t"
  by (induction ids arbitrary: n) auto

lemma reprioritise_nth:
  "distinct ids \<Longrightarrow> j < length ids \<Longrightarrow> id_task t = ids ! j \<Longrightarrow>
   reprioritise n ids t = t\<lparr>priority := int (n + j) + 1\<rparr>"
proof (induction ids arbitrary: n j t)
  case Nil
  then show ?case by simp
next
  case (Cons i ids)
  show ?case
  proof (cases j)
    case 0
    then show ?thesis using Cons.prems by (simp add: reprioritise_absent)
  next
    case (Suc j')
    then have "id_task t \<noteq> i" using Cons.prems by auto
    then show ?thesis using Cons.IH [of j' t "Suc n"] Cons.prems Suc by simp
  qed
qed

lemma getTask_reorder_absent:
  "i \<notin> set ids \<Longrightarrow> getTask (reorderTasks D d ids) i = getTask D i"
proof -
  assume a: "i \<notin> set ids"
  have "find (\<lambda>t. id_task t = i) (map (reprioritise n ids) rows) = find (\<lambda>t. id_task t = i) rows" for rows n
    using a by (induction rows) (auto simp: reprioritise_more reprioritise_absent)
  then show ?thesis by (simp add: getTask_def reorderTasks_def forEach_reorder_map)
qed

lemma find_map_reprioritise:
  "find (\<lambda>t. id_task t = i) (map (reprioritise n ids) rows) =
   map_option (reprioritise n ids) (find (\<lambda>t. id_task t = i) rows)"
  by (induction rows) (auto simp: reprioritise_more)

lemma getTask_reorder_nth:
  assumes "distinct ids" "j < length ids" "getTask D (ids ! j) = Some t"
  shows "getTask (reorderTasks D d ids) (ids ! j) = Some (t\<lparr>priority := int j + 1\<rparr>)"
proof -
  have "id_task t = ids ! j" using assms(3) by (auto simp: getTask_def dest: find_Some_iff [THEN iffD1])
  then show ?thesis using assms reprioritise_nth [of ids j t 0]
    by (simp add: getTask_def reorderTasks_def forEach_reorder_map find_map_reprioritise)
qed

lemma sorted_fst: "sorted (map (\<lambda>t. (f t, g t)) xs) \<Longrightarrow> sorted (map f xs)"
  by (induction xs) (auto simp: less_eq_prod_def)

lemma listByDay_mentioned:
  assumes pk: "distinct (map id_task (tasks D))"
    and di: "distinct ids"
    and bel: "\<forall>i \<in> set ids. \<exists>t \<in> set (tasks D). id_task t = i \<and> day t = d"
  shows "filter (\<lambda>i. i \<in> set ids) (map id_task (getTasksByDay (reorderTasks D d ids) d)) = ids"
proof -
  let ?k = "\<lambda>t. (priority t, created_at t)"
  let ?rows = "map (reprioritise 0 ids) (tasks D)"
  let ?X = "filter (\<lambda>t. id_task t \<in> set ids) (filter (\<lambda>t. day t = d) ?rows)"
  let ?M = "sort_key ?k ?X"
  have lhs: "filter (\<lambda>i. i \<in> set ids) (map id_task (getTasksByDay (reorderTasks D d ids) d)) = map id_task ?M"
    by (simp add: getTasksByDay_def reorderTasks_def forEach_reorder_map filter_map comp_def filter_sort)
  have ids_rows: "map id_task ?rows = map id_task (tasks D)"
    by (simp add: reprioritise_more)
  have "distinct (map id_task ?rows)" unfolding ids_rows by (rule pk)
  then have dX: "distinct (map id_task ?X)" by (simp add: distinct_map_filter)
  have elem: "\<exists>j < length ids. id_task t = ids ! j \<and> priority t = int j + 1" if "t \<in> set ?X" for t
  proof -
    from that obtain t0 where t0: "t0 \<in> set (tasks D)" "t = reprioritise 0 ids t0" "id_task t \<in> set ids"
      by auto
    then have "id_task t0 \<in> set ids" by (simp add: reprioritise_more)
    then obtain j where j: "j < length ids" "id_task t0 = ids ! j" by (auto simp: in_set_conv_nth)
    then have "t = t0\<lparr>priority := int j + 1\<rparr>" using reprioritise_nth [OF di j, of 0] t0 by simp
    then show ?thesis using j by auto
  qed
  have setX: "priority ` set ?X = (\<lambda>j. int j + 1) ` {0..<length ids}"
  proof (intro equalityI subsetI)
    fix p assume "p \<in> priority ` set ?X"
    then obtain t where "t \<in> set ?X" "p = priority t" by blast
    then show "p \<in> (\<lambda>j. int j + 1) ` {0..<length ids}" using elem [of t] by auto
  next
    fix p assume "p \<in> (\<lambda>j. int j + 1) ` {0..<length ids}"
    then obtain j where j: "j < length ids" "p = int j + 1" by auto
    then obtain t0 where t0: "t0 \<in> set (tasks D)" "id_task t0 = ids ! j" "day t0 = d"
      using bel by (metis nth_mem)
    let ?t = "reprioritise 0 ids t0"
    have eq: "?t = t0\<lparr>priority := int j + 1\<rparr>" using reprioritise_nth [OF di j(1) t0(2), of 0] by simp
    have "?t \<in> set ?X" using t0 j(1) by (simp add: reprioritise_more)
    moreover have "priority ?t = p" using eq j by simp
    ultimately show "p \<in> priority ` set ?X" by blast
  qed
  have inj: "inj_on priority (set ?X)"
  proof (rule inj_onI)
    fix s t assume st: "s \<in> set ?X" "t \<in> set ?X" "priority s = priority t"
    from elem [OF st(1)] elem [OF st(2)] st(3) have "id_task s = id_task t" by auto
    then show "s = t" using dX st(1,2) by (meson distinct_map inj_onD)
  qed
  have dM: "distinct (map priority ?M)"
    using dX inj by (simp add: distinct_map)
  have sM: "sorted (map priority ?M)"
    using sorted_sort_key [of ?k ?X] by (rule sorted_fst)
  have "map priority ?M = map (\<lambda>j. int j + 1) [0..<length ids]"
  proof (rule sorted_distinct_set_unique)
    show "sorted (map priority ?M)" by (rule sM)
    show "distinct (map priority ?M)" by (rule dM)
    show "sorted (map (\<lambda>j. int j + 1) [0..<length ids])"
      by (simp add: sorted_map)
    show "distinct (map (\<lambda>j. int j + 1) [0..<length ids])"
      by (simp add: distinct_map inj_on_def)
    show "set (map priority ?M) = set (map (\<lambda>j. int j + 1) [0..<length ids])"
      using setX by simp
  qed
  then have pr: "map priority ?M = map (\<lambda>j. int j + 1) [0..<length ids]" .
  have "map id_task ?M = map (\<lambda>t. ids ! nat (priority t - 1)) ?M"
  proof (rule map_cong [OF refl])
    fix t assume "t \<in> set ?M"
    then have "t \<in> set ?X" by simp
    from elem [OF this] show "id_task t = ids ! nat (priority t - 1)" by auto
  qed
  also have "\<dots> = map (\<lambda>p. ids ! nat (p - 1)) (map priority ?M)" by (simp add: comp_def)
  also have "\<dots> = map (\<lambda>j. ids ! j) [0..<length ids]" unfolding pr by (simp add: comp_def)
  also have "\<dots> = ids" by (rule map_nth)
  finally show ?thesis using lhs by simp
qed

text \<open>
  Claim C1, for a list of pairwise distinct ids. In a store that respects the primary
  key, let every id of \<open>ids\<close> belong to a task of day \<open>d\<close>, no id occurring twice. After
  \<open>reorderTasks\<close> the task with id \<open>ids ! j\<close> is the row it was with priority \<open>j + 1\<close>, every
  task whose id is not in \<open>ids\<close> is the row it was, and the ids of \<open>getTasksByDay d\<close> that
  occur in \<open>ids\<close> come in the order of \<open>ids\<close>.
\<close>

theorem reorderTasks_priorities:
  assumes "primary_keys D" and "distinct ids"
    and "\<forall>i \<in> set ids. \<exists>t \<in> set (tasks D). id_task t = i \<and> day t = d"
  shows "(\<forall>j < length ids. \<exists>t. getTask D (ids ! j) = Some t \<and>
            getTask (reorderTasks D d ids) (ids ! j) = Some (t\<lparr>priority := int j + 1\<rparr>)) \<and>
         (\<forall>i. i \<notin> set ids \<longrightarrow> getTask (reorderTasks D d ids) i = getTask D i) \<and>
         filter (\<lambda>i. i \<in> set ids) (map id_task (getTasksByDay (reorderTasks D d ids) d)) = ids"
proof (intro conjI allI impI)
  fix j assume j: "j < length ids"
  then have "ids ! j \<in> set ids" by simp
  then have "\<exists>t \<in> set (tasks D). id_task t = ids ! j" using assms(3) by blast
  then have "ids ! j \<in> set (map id_task (tasks D))" by (metis image_eqI set_map)
  then obtain t where t: "getTask D (ids ! j) = Some t"
    using getTask_None_iff [of D "ids ! j"] by (cases "getTask D (ids ! j)") auto
  then show "\<exists>t. getTask D (ids ! j) = Some t \<and>
            getTask (reorderTasks D d ids) (ids ! j) = Some (t\<lparr>priority := int j + 1\<rparr>)"
    using getTask_reorder_nth [OF assms(2) j t] by simp
next
  fix i assume "i \<notin> set ids"
  then show "getTask (reorderTasks D d ids) i = getTask D i" by (rule getTask_reorder_absent)
next
  show "filter (\<lambda>i. i \<in> set ids) (map id_task (getTasksByDay (reorderTasks D d ids) d)) = ids"
    using assms by (intro listByDay_mentioned) (simp_all add: primary_keys_def)
qed

theorem reorderTasks_priorities_witness:
  "primary_keys example_db \<and> distinct [''C'', ''A'', ''B''] \<and>
   map_option day (getTask example_db ''C'') = Some ''monday'' \<and>
   map_option day (getTask example_db ''A'') = Some ''monday'' \<and>
   map_option day (getTask example_db ''B'') = Some ''monday'' \<and>
   map_option priority (getTask (reorderTasks example_db ''monday'' [''C'', ''A'', ''B'']) ''C'') = Some 1 \<and>
   map_option priority (getTask (reorderTasks example_db ''monday'' [''C'', ''A'', ''B'']) ''A'') = Some 2 \<and>
   map_option priority (getTask (reorderTasks example_db ''monday'' [''C'', ''A'', ''B'']) ''B'') = Some 3 \<and>
   filter (\<lambda>i. i \<in> set [''C'', ''A'', ''B''])
     (map id_task (getTasksByDay (reorderTasks example_db ''monday'' [''C'', ''A'', ''B'']) ''monday''))
     = [''C'', ''A'', ''B'']"
proof -
  have h1: "primary_keys example_db" by (simp add: primary_keys_def example_defs)
  have h2: "distinct [''C'', ''A'', ''B'']" by simp
  have h3: "\<forall>i \<in> set [''C'', ''A'', ''B'']. \<exists>t \<in> set (tasks example_db). id_task t = i \<and> day t = ''monday''"
    by (simp add: example_defs)
  have h4: "map_option day (getTask example_db ''C'') = Some ''monday''"
    "map_option day (getTask example_db ''A'') = Some ''monday''"
    "map_option day (getTask example_db ''B'') = Some ''monday''"
    by (simp_all add: example_defs getTask_def)
  note r = reorderTasks_priorities [OF h1 h2 h3]
  have p: "map_option priority (getTask (reorderTasks example_db ''monday'' [''C'', ''A'', ''B'']) ''C'') = Some 1"
     "map_option priority (getTask (reorderTasks example_db ''monday'' [''C'', ''A'', ''B'']) ''A'') = Some 2"
     "map_option priority (getTask (reorderTasks example_db ''monday'' [''C'', ''A'', ''B'']) ''B'') = Some 3"
    by (simp_all add: example_defs getTask_def reorderTasks_def set_priority_def)
  show ?thesis using h1 h2 h4 r p by simp
qed

text \<open>
  An id that occurs twice gets the priority of its last position: for the list \<open>[A, A]\<close>
  task A ends with priority 2, not 1, and no listing holds A twice.
\<close>

theorem reorderTasks_duplicate_counterexample:
  "map_option day (getTask example_db ''A'') = Some ''monday'' \<and>
   [''A'', ''A''] ! 0 = ''A'' \<and>
   map_option priority (getTask (reorderTasks example_db ''monday'' [''A'', ''A''])
      ([''A'', ''A''] ! 0)) \<noteq> Some (int 0 + 1) \<and>
   filter (\<lambda>i. i \<in> set [''A'', ''A''])
     (map id_task (getTasksByDay (reorderTasks example_db ''monday'' [''A'', ''A'']) ''monday''))
     \<noteq> [''A'', ''A'']"
  by (simp add: example_defs getTask_def reorderTasks_def set_priority_def getTasksByDay_def)

section \<open>Updating a task\<close>

lemma join_nonempty: "xs \<noteq> [] \<Longrightarrow> hd xs \<noteq> [] \<Longrightarrow> join sep xs \<noteq> []"
  by (induction sep xs rule: join.induct) auto

lemma fields_empty_iff: "fields_sql us = [] \<longleftrightarrow> us = []"
proof (cases us)
  case Nil
  then show ?thesis by (simp add: fields_sql_def)
next
  case (Cons u us')
  then have "join '', '' (map (\<lambda>k. k @ '' = $'' @ k) (map key us)) \<noteq> []"
    by (intro join_nonempty) simp_all
  then show ?thesis using Cons by (simp add: fields_sql_def)
qed

lemma mutable_column: "mutable u \<Longrightarrow> key u \<in> set task_columns"
  by (cases u) (simp_all add: task_columns_def)

lemma param_id_mutable: "\<forall>u \<in> set us. mutable u \<Longrightarrow> param_id i us = i"
  unfolding param_id_def by (induction us) (auto split: field_update.splits)

lemma param_updated_at_absent:
  "''updated_at'' \<notin> key ` set us \<Longrightarrow> param_updated_at now us = now"
  unfolding param_updated_at_def by (induction us) (auto split: field_update.splits)

lemma param_updated_at_present:
  "distinct (map key us) \<Longrightarrow> Set_updated_at x \<in> set us \<Longrightarrow> param_updated_at now us = x"
proof (induction us arbitrary: now)
  case Nil
  then show ?case by simp
next
  case (Cons u us)
  show ?case
  proof (cases "u = Set_updated_at x")
    case True
    then have "''updated_at'' \<notin> key ` set us" using Cons.prems by auto
    then have "param_updated_at x us = x" by (rule param_updated_at_absent)
    then show ?thesis using True by (simp add: param_updated_at_def)
  next
    case False
    then have "Set_updated_at x \<in> set us" "distinct (map key us)" using Cons.prems by auto
    then have "\<And>n. param_updated_at n us = x" using Cons.IH by blast
    then show ?thesis by (simp add: param_updated_at_def)
  qed
qed

lemma fold_assign_immutable:
  "\<forall>u \<in> set us. mutable u \<Longrightarrow>
   id_task (fold assign us t) = id_task t \<and> created_at (fold assign us t) = created_at t"
proof (induction us arbitrary: t)
  case Nil
  show ?case by simp
next
  case (Cons u us)
  then have "mutable u" by simp
  then have "id_task (assign u t) = id_task t \<and> created_at (assign u t) = created_at t"
    by (cases u) simp_all
  then show ?case using Cons by simp
qed

lemma fold_assign_absent:
  "''title'' \<notin> key ` set us \<Longrightarrow> title (fold assign us t) = title t"
  "''description'' \<notin> key ` set us \<Longrightarrow> description (fold assign us t) = description t"
  "''day'' \<notin> key ` set us \<Longrightarrow> day (fold assign us t) = day t"
  "''priority'' \<notin> key ` set us \<Longrightarrow> priority (fold assign us t) = priority t"
  "''completed'' \<notin> key ` set us \<Longrightarrow> completed (fold assign us t) = completed t"
proof (induction us arbitrary: t)
  case Nil
  { case 1 show ?case by simp }
  { case 2 show ?case by simp }
  { case 3 show ?case by simp }
  { case 4 show ?case by simp }
  { case 5 show ?case by simp }
next
  case (Cons u us)
  { case 1 then show ?case using Cons.IH(1) [of "assign u t"] by (cases u) auto }
  { case 2 then show ?case using Cons.IH(2) [of "assign u t"] by (cases u) auto }
  { case 3 then show ?case using Cons.IH(3) [of "assign u t"] by (cases u) auto }
  { case 4 then show ?case using Cons.IH(4) [of "assign u t"] by (cases u) auto }
  { case 5 then show ?case using Cons.IH(5) [of "assign u t"] by (cases u) auto }
qed

lemma fold_assign_present:
  assumes "distinct (map key us)"
  shows "Set_title a \<in> set us \<Longrightarrow> title (fold assign us t) = a"
    and "Set_description b \<in> set us \<Longrightarrow> description (fold assign us t) = b"
    and "Set_day c \<in> set us \<Longrightarrow> day (fold assign us t) = c"
    and "Set_priority p \<in> set us \<Longrightarrow> priority (fold assign us t) = p"
    and "Set_completed e \<in> set us \<Longrightarrow> completed (fold assign us t) = e"
  using assms
proof (induction us arbitrary: t)
  case Nil
  { case 1 then show ?case by simp }
  { case 2 then show ?case by simp }
  { case 3 then show ?case by simp }
  { case 4 then show ?case by simp }
  { case 5 then show ?case by simp }
next
  case (Cons u us)
  { case 1
    show ?case
    proof (cases "u = Set_title a")
      case True
      then have "''title'' \<notin> key ` set us" using 1 by auto
      then show ?thesis using True by (simp add: fold_assign_absent)
    next
      case False
      then show ?thesis using 1 Cons.IH(1) [of "assign u t"] by simp
    qed }
  { case 2
    show ?case
    proof (cases "u = Set_description b")
      case True
      then have "''description'' \<notin> key ` set us" using 2 by auto
      then show ?thesis using True by (simp add: fold_assign_absent)
    next
      case False
      then show ?thesis using 2 Cons.IH(2) [of "assign u t"] by simp
    qed }
  { case 3
    show ?case
    proof (cases "u = Set_day c")
      case True
      then have "''day'' \<notin> key ` set us" using 3 by auto
      then show ?thesis using True by (simp add: fold_assign_absent)
    next
      case False
      then show ?thesis using 3 Cons.IH(3) [of "assign u t"] by simp
    qed }
  { case 4
    show ?case
    proof (cases "u = Set_priority p")
      case True
      then have "''priority'' \<notin> key ` set us" using 4 by auto
      then show ?thesis using True by (simp add: fold_assign_absent)
    next
      case False
      then show ?thesis using 4 Cons.IH(4) [of "assign u t"] by simp
    qed }
  { case 5
    show ?case
    proof (cases "u = Set_completed e")
      case True
      then have "''completed'' \<notin> key ` set us" using 5 by auto
      then show ?thesis using True by (simp add: fold_assign_absent)
    next
      case False
      then show ?thesis using 5 Cons.IH(5) [of "assign u t"] by simp
    qed }
qed

lemma find_map_same:
  "(\<And>x. x \<in> set xs \<Longrightarrow> P (f x) = P x) \<Longrightarrow> find P (map f xs) = map_option f (find P xs)"
  by (induction xs) auto

lemma run_update_mutable:
  assumes "\<forall>u \<in> set us. mutable u" and "us \<noteq> []"
  shows "run_update rows i now us =
     Inr (map (\<lambda>t. if id_task t = i
                    then (fold assign us t)\<lparr>updated_at := param_updated_at now us\<rparr> else t) rows)"
  using assms by (auto simp: run_update_eq param_id_mutable dest: mutable_column)

lemma updateTask_mutable:
  assumes g: "getTask D i = Some t" and m: "\<forall>u \<in> set us. mutable u" and ne: "us \<noteq> []"
  shows "\<exists>D'. updateTask D now i us =
            Inr (Some ((fold assign us t)\<lparr>updated_at := param_updated_at now us\<rparr>), D') \<and>
          getTask D' i = Some ((fold assign us t)\<lparr>updated_at := param_updated_at now us\<rparr>) \<and>
          (\<forall>j. j \<noteq> i \<longrightarrow> getTask D' j = getTask D j) \<and>
          pomodoro_sessions D' = pomodoro_sessions D"
proof -
  let ?f = "\<lambda>t. if id_task t = i
                 then (fold assign us t)\<lparr>updated_at := param_updated_at now us\<rparr> else t"
  let ?D = "D\<lparr>tasks := map ?f (tasks D)\<rparr>"
  have idf: "id_task (?f x) = id_task x" for x using fold_assign_immutable [OF m] by simp
  have fnd: "find (\<lambda>t. id_task t = j) (map ?f (tasks D)) = map_option ?f (find (\<lambda>t. id_task t = j) (tasks D))" for j
    by (rule find_map_same) (simp add: idf)
  have it: "id_task t = i" using g by (auto simp: getTask_def dest: find_Some_iff [THEN iffD1])
  have gi: "getTask ?D i = Some ((fold assign us t)\<lparr>updated_at := param_updated_at now us\<rparr>)"
    using g it by (simp add: getTask_def fnd)
  have gj: "getTask ?D j = getTask D j" if "j \<noteq> i" for j
  proof (cases "find (\<lambda>t. id_task t = j) (tasks D)")
    case None
    then show ?thesis by (simp add: getTask_def fnd)
  next
    case (Some x)
    then have "id_task x = j" by (auto dest: find_Some_iff [THEN iffD1])
    then show ?thesis using Some that by (simp add: getTask_def fnd)
  qed
  have "updateTask D now i us = Inr (getTask ?D i, ?D)"
    using ne by (simp add: updateTask_def fields_empty_iff run_update_mutable [OF m ne] Let_def)
  then show ?thesis using gi gj by (intro exI [of _ ?D]) simp
qed

text \<open>
  Claim C3, with the empty field set set apart. Let \<open>i\<close> be the id of a stored task \<open>t\<close> and
  \<open>us\<close> a field set over the mutable Task fields, each key once. If \<open>us\<close> is empty,
  \<open>updateTask\<close> returns \<open>t\<close> and the store is unchanged, \<open>updated_at\<close> included. Otherwise it
  returns the stored row \<open>t'\<close>, in which every supplied field has the supplied value and
  every field that is not supplied has the value it had in \<open>t\<close>, \<open>id\<close> and \<open>created_at\<close>
  included; \<open>updated_at\<close> is the time of the call, unless \<open>updated_at\<close> is itself supplied,
  and then it is the supplied value. No other task and no session changes.
\<close>

theorem updateTask_partial:
  assumes "getTask D i = Some t" and "\<forall>u \<in> set us. mutable u" and "distinct (map key us)"
  shows "(us = [] \<longrightarrow> updateTask D now i us = Inr (Some t, D)) \<and>
         (us \<noteq> [] \<longrightarrow> (\<exists>t' D'. updateTask D now i us = Inr (Some t', D') \<and>
            getTask D' i = Some t' \<and>
            (\<forall>j. j \<noteq> i \<longrightarrow> getTask D' j = getTask D j) \<and>
            pomodoro_sessions D' = pomodoro_sessions D \<and>
            id_task t' = id_task t \<and> created_at t' = created_at t \<and>
            (\<forall>x. Set_title x \<in> set us \<longrightarrow> title t' = x) \<and>
            (''title'' \<notin> key ` set us \<longrightarrow> title t' = title t) \<and>
            (\<forall>x. Set_description x \<in> set us \<longrightarrow> description t' = x) \<and>
            (''description'' \<notin> key ` set us \<longrightarrow> description t' = description t) \<and>
            (\<forall>x. Set_day x \<in> set us \<longrightarrow> day t' = x) \<and>
            (''day'' \<notin> key ` set us \<longrightarrow> day t' = day t) \<and>
            (\<forall>x. Set_priority x \<in> set us \<longrightarrow> priority t' = x) \<and>
            (''priority'' \<notin> key ` set us \<longrightarrow> priority t' = priority t) \<and>
            (\<forall>x. Set_completed x \<in> set us \<longrightarrow> completed t' = x) \<and>
            (''completed'' \<notin> key ` set us \<longrightarrow> completed t' = completed t) \<and>
            (\<forall>x. Set_updated_at x \<in> set us \<longrightarrow> updated_at t' = x) \<and>
            (''updated_at'' \<notin> key ` set us \<longrightarrow> updated_at t' = now)))"
proof (intro conjI impI)
  assume "us = []"
  then show "updateTask D now i us = Inr (Some t, D)"
    using assms(1) by (simp add: updateTask_def fields_sql_def)
next
  assume ne: "us \<noteq> []"
  let ?t = "(fold assign us t)\<lparr>updated_at := param_updated_at now us\<rparr>"
  from updateTask_mutable [OF assms(1,2) ne, of now]
  obtain D' where D': "updateTask D now i us = Inr (Some ?t, D')" "getTask D' i = Some ?t"
    "\<forall>j. j \<noteq> i \<longrightarrow> getTask D' j = getTask D j" "pomodoro_sessions D' = pomodoro_sessions D"
    by blast
  have imm: "id_task ?t = id_task t \<and> created_at ?t = created_at t"
    using fold_assign_immutable [OF assms(2)] by simp
  have pres: "(\<forall>x. Set_title x \<in> set us \<longrightarrow> title ?t = x) \<and>
      (\<forall>x. Set_description x \<in> set us \<longrightarrow> description ?t = x) \<and>
      (\<forall>x. Set_day x \<in> set us \<longrightarrow> day ?t = x) \<and>
      (\<forall>x. Set_priority x \<in> set us \<longrightarrow> priority ?t = x) \<and>
      (\<forall>x. Set_completed x \<in> set us \<longrightarrow> completed ?t = x) \<and>
      (\<forall>x. Set_updated_at x \<in> set us \<longrightarrow> updated_at ?t = x)"
    using fold_assign_present [OF assms(3)] param_updated_at_present [OF assms(3)] by simp
  have abs: "(''title'' \<notin> key ` set us \<longrightarrow> title ?t = title t) \<and>
      (''description'' \<notin> key ` set us \<longrightarrow> description ?t = description t) \<and>
      (''day'' \<notin> key ` set us \<longrightarrow> day ?t = day t) \<and>
      (''priority'' \<notin> key ` set us \<longrightarrow> priority ?t = priority t) \<and>
      (''completed'' \<notin> key ` set us \<longrightarrow> completed ?t = completed t) \<and>
      (''updated_at'' \<notin> key ` set us \<longrightarrow> updated_at ?t = now)"
    using fold_assign_absent param_updated_at_absent by simp
  show "\<exists>t' D'. updateTask D now i us = Inr (Some t', D') \<and>
            getTask D' i = Some t' \<and>
            (\<forall>j. j \<noteq> i \<longrightarrow> getTask D' j = getTask D j) \<and>
            pomodoro_sessions D' = pomodoro_sessions D \<and>
            id_task t' = id_task t \<and> created_at t' = created_at t \<and>
            (\<forall>x. Set_title x \<in> set us \<longrightarrow> title t' = x) \<and>
            (''title'' \<notin> key ` set us \<longrightarrow> title t' = title t) \<and>
            (\<forall>x. Set_description x \<in> set us \<longrightarrow> description t' = x) \<and>
            (''description'' \<notin> key ` set us \<longrightarrow> description t' = description t) \<and>
            (\<forall>x. Set_day x \<in> set us \<longrightarrow> day t' = x) \<and>
            (''day'' \<notin> key ` set us \<longrightarrow> day t' = day t) \<and>
            (\<forall>x. Set_priority x \<in> set us \<longrightarrow> priority t' = x) \<and>
            (''priority'' \<notin> key ` set us \<longrightarrow> priority t' = priority t) \<and>
            (\<forall>x. Set_completed x \<in> set us \<longrightarrow> completed t' = x) \<and>
            (''completed'' \<notin> key ` set us \<longrightarrow> completed t' = completed t) \<and>
            (\<forall>x. Set_updated_at x \<in> set us \<longrightarrow> updated_at t' = x) \<and>
            (''updated_at'' \<notin> key ` set us \<longrightarrow> updated_at t' = now)"
    apply (rule exI [of _ ?t])
    apply (rule exI [of _ D'])
    using D' imm pres abs by blast
qed

theorem updateTask_partial_witness:
  "getTask example_db ''A'' = Some task_A \<and>
   mutable (Set_completed True) \<and> distinct (map key [Set_completed True]) \<and>
   [Set_completed True] \<noteq> [] \<and>
   (\<exists>D'. updateTask example_db now1 ''A'' [Set_completed True] =
      Inr (Some (task_A\<lparr>completed := True, updated_at := now1\<rparr>), D'))"
proof -
  have h1: "getTask example_db ''A'' = Some task_A" by (simp add: example_defs getTask_def)
  have h2: "\<forall>u \<in> set [Set_completed True]. mutable u" by simp
  have h3: "distinct (map key [Set_completed True])" by simp
  note r = updateTask_partial [OF h1 h2 h3, of now1]
  have e: "\<exists>D'. updateTask example_db now1 ''A'' [Set_completed True] =
      Inr (Some (task_A\<lparr>completed := True, updated_at := now1\<rparr>), D')"
    by (simp add: updateTask_def fields_sql_def run_update_eq param_id_def param_updated_at_def
        task_columns_def getTask_def example_defs Let_def)
  show ?thesis using h1 h2 h3 r e by simp
qed

text \<open>
  With an empty field set \<open>updateTask\<close> returns before the \<^verbatim>\<open>UPDATE\<close>: \<open>updated_at\<close> is not
  refreshed.
\<close>

theorem updateTask_empty_counterexample:
  "updateTask example_db now1 ''A'' [] = Inr (Some task_A, example_db) \<and>
   updated_at task_A \<noteq> now1"
  by (simp add: updateTask_def fields_sql_def getTask_def example_defs now1_def)

text \<open>
  Claim C5 fails on the code: \<^verbatim>\<open>PUT /api/tasks/A\<close> with the body \<^verbatim>\<open>{"title": ""}\<close> is
  answered 200 and the empty title is stored. (\<^verbatim>\<open>POST /api/tasks\<close> rejects an empty title.)
\<close>

theorem PUT_task_empty_title:
  "status (fst (PUT_task example_server now1 ''A'' (Some [Set_title '''']))) = 200 \<and>
   getTask (db (snd (PUT_task example_server now1 ''A'' (Some [Set_title ''''])))) ''A'' =
     Some (task_A\<lparr>title := '''', updated_at := now1\<rparr>)"
  by (simp add: PUT_task_def updateTask_def fields_sql_def run_update_eq param_id_def
      param_updated_at_def task_columns_def getTask_def example_defs Let_def json_def publish_def)






text \<open>
  A body that carries the key \<^verbatim>\<open>id\<close> rebinds the parameter \<^verbatim>\<open>$id\<close> of the \<^verbatim>\<open>WHERE\<close> clause:
  the update lands on the task named in the body, and the task of the request path is
  returned as it was.
\<close>

lemma updateTask_id_key_other_row:
  "map_option fst (case updateTask example_db now1 ''A'' [Set_id ''B'', Set_title ''x''] of
       Inl e \<Rightarrow> None | Inr r \<Rightarrow> Some r) = Some (Some task_A) \<and>
   getTask (after (updateTask example_db now1 ''A'' [Set_id ''B'', Set_title ''x''])
       example_db) ''B'' = Some (task_B\<lparr>title := ''x'', updated_at := now1\<rparr>)"
  by (simp add: updateTask_def fields_sql_def run_update_eq param_id_def param_updated_at_def
      task_columns_def getTask_def after_def Let_def example_defs)



section \<open>Creating a task\<close>

lemma getTask_append_new:
  "uuid \<notin> set (map id_task rows) \<Longrightarrow> id_task t = uuid \<Longrightarrow>
   find (\<lambda>t. id_task t = uuid) (rows @ [t]) = Some t"
  by (induction rows) auto

text \<open>
  Claim C4, with the test the handler makes. \<^verbatim>\<open>POST /api/tasks\<close> answers 400 and leaves
  the server as it was, no row created, whenever the title or the day is missing or
  empty. For a non-empty title and a non-empty day, and an id that is not in use, it
  answers with the new task, which \<open>createTask\<close> has appended to the table with priority 1,
  not completed, and both timestamps equal to the time of the call.
\<close>

theorem POST_tasks_validation:
  "(falsy (title_of b) \<or> falsy (day_of b) \<longrightarrow>
      status (fst (POST_tasks srv uuid now (Some b))) = 400 \<and>
      snd (POST_tasks srv uuid now (Some b)) = srv) \<and>
   (\<not> falsy (title_of b) \<and> \<not> falsy (day_of b) \<and> uuid \<notin> set (map id_task (tasks (db srv))) \<longrightarrow>
      (\<exists>task. task = \<lparr>id_task = uuid, title = the (title_of b), description = description_of b,
                       day = the (day_of b), priority = 1, completed = False,
                       created_at = now, updated_at = now\<rparr> \<and>
         fst (POST_tasks srv uuid now (Some b)) = json (Task_payload task) \<and>
         createTask (db srv) uuid now (the (title_of b)) (description_of b) (the (day_of b)) 1 False
           = Inr (task, db (snd (POST_tasks srv uuid now (Some b)))) \<and>
         tasks (db (snd (POST_tasks srv uuid now (Some b)))) = tasks (db srv) @ [task] \<and>
         getTask (db (snd (POST_tasks srv uuid now (Some b)))) uuid = Some task))"
proof (intro conjI impI)
  assume "falsy (title_of b) \<or> falsy (day_of b)"
  then show "status (fst (POST_tasks srv uuid now (Some b))) = 400"
    "snd (POST_tasks srv uuid now (Some b)) = srv"
    by (auto simp: POST_tasks_def json_status_def)
next
  assume a: "\<not> falsy (title_of b) \<and> \<not> falsy (day_of b) \<and> uuid \<notin> set (map id_task (tasks (db srv)))"
  then show "\<exists>task. task = \<lparr>id_task = uuid, title = the (title_of b), description = description_of b,
                       day = the (day_of b), priority = 1, completed = False,
                       created_at = now, updated_at = now\<rparr> \<and>
         fst (POST_tasks srv uuid now (Some b)) = json (Task_payload task) \<and>
         createTask (db srv) uuid now (the (title_of b)) (description_of b) (the (day_of b)) 1 False
           = Inr (task, db (snd (POST_tasks srv uuid now (Some b)))) \<and>
         tasks (db (snd (POST_tasks srv uuid now (Some b)))) = tasks (db srv) @ [task] \<and>
         getTask (db (snd (POST_tasks srv uuid now (Some b)))) uuid = Some task"
    using getTask_append_new [of uuid "tasks (db srv)"]
    by (simp add: POST_tasks_def createTask_def Let_def publish_def getTask_def)
qed

theorem POST_tasks_validation_witness:
  "falsy (title_of (Create_body (Some '''') None (Some ''monday''))) \<and>
   status (fst (POST_tasks example_server ''N'' now1
      (Some (Create_body (Some '''') None (Some ''monday''))))) = 400 \<and>
   snd (POST_tasks example_server ''N'' now1
      (Some (Create_body (Some '''') None (Some ''monday'')))) = example_server \<and>
   \<not> falsy (title_of (Create_body (Some ''Write spec'') None (Some ''monday''))) \<and>
   \<not> falsy (day_of (Create_body (Some ''Write spec'') None (Some ''monday''))) \<and>
   ''N'' \<notin> set (map id_task (tasks (db example_server))) \<and>
   getTask (db (snd (POST_tasks example_server ''N'' now1
      (Some (Create_body (Some ''Write spec'') None (Some ''monday'')))))) ''N'' =
     Some \<lparr>id_task = ''N'', title = ''Write spec'', description = None, day = ''monday'',
           priority = 1, completed = False, created_at = now1, updated_at = now1\<rparr>"
  using POST_tasks_validation [of "Create_body (Some '''') None (Some ''monday'')"
      example_server "''N''" now1]
    POST_tasks_validation [of "Create_body (Some ''Write spec'') None (Some ''monday'')"
      example_server "''N''" now1]
  by (simp add: falsy_def example_defs)

text \<open>
  The day is tested for emptiness only: a task for the day \<^verbatim>\<open>funday\<close>, which is none of the
  seven tokens, is created.
\<close>

theorem POST_tasks_day_counterexample:
  "''funday'' \<notin> set DAYS \<and>
   status (fst (POST_tasks example_server ''N'' now1
      (Some (Create_body (Some ''Write spec'') None (Some ''funday''))))) = 200 \<and>
   map_option day (getTask (db (snd (POST_tasks example_server ''N'' now1
      (Some (Create_body (Some ''Write spec'') None (Some ''funday'')))))) ''N'') = Some ''funday''"
  by (simp add: DAYS_def POST_tasks_def falsy_def createTask_def Let_def json_def publish_def
      getTask_def example_defs)

section \<open>Completing a session\<close>












section \<open>Events\<close>

lemma updateTask_returns: "updateTask D now i us = Inr (r, D') \<Longrightarrow> r = getTask D' i"
  by (auto simp: updateTask_def Let_def split: if_splits sum.splits)

lemma fold_assign_id: "id_task (fold assign us t) = param_id (id_task t) us"
proof (induction us arbitrary: t)
  case Nil
  show ?case by (simp add: param_id_def)
next
  case (Cons u us)
  have "id_task (assign u t) = (case u of Set_id x \<Rightarrow> x | _ \<Rightarrow> id_task t)"
    by (cases u) simp_all
  then show ?case using Cons [of "assign u t"] by (simp add: param_id_def)
qed

lemma param_id_cases: "(\<forall>b. param_id b us = b) \<or> (\<forall>a b. param_id a us = param_id b us)"
proof (induction us)
  case Nil
  show ?case by (simp add: param_id_def)
next
  case (Cons u us)
  have step: "param_id a (u # us) = param_id (case u of Set_id x \<Rightarrow> x | _ \<Rightarrow> a) us" for a
    by (simp add: param_id_def)
  from Cons show ?case
  proof
    assume "\<forall>b. param_id b us = b"
    then show ?thesis unfolding step by (cases u) simp_all
  next
    assume "\<forall>a b. param_id a us = param_id b us"
    then show ?thesis unfolding step by blast
  qed
qed

lemma param_id_idem: "param_id (param_id i us) us = param_id i us"
  using param_id_cases [of us] by metis

lemma run_update_ids:
  assumes "\<forall>u \<in> set us. key u \<in> set task_columns" and "us \<noteq> []"
  shows "\<exists>rows'. run_update rows i now us = Inr rows' \<and> map id_task rows' = map id_task rows"
proof -
  let ?f = "\<lambda>t. if id_task t = param_id i us
                 then (fold assign us t)\<lparr>updated_at := param_updated_at now us\<rparr> else t"
  have "id_task (?f t) = id_task t" for t
    by (simp add: fold_assign_id param_id_idem)
  then have "map id_task (map ?f rows) = map id_task rows" by (simp add: comp_def)
  moreover have "run_update rows i now us = Inr (map ?f rows)"
    using assms by (simp add: run_update_eq)
  ultimately show ?thesis by blast
qed





subsection \<open>The handlers, one by one\<close>









text \<open>
  A body that carries the key \<^verbatim>\<open>id\<close> can rewrite a stored row while the request is answered
  404 and nothing is published: the update lands on the row the body names.
\<close>

lemma PUT_task_id_key_silent:
  "getTask (db example_server) ''Z'' = None \<and>
   status (fst (PUT_task example_server now1 ''Z'' (Some [Set_id ''B'', Set_title ''x'']))) = 404 \<and>
   published (snd (PUT_task example_server now1 ''Z'' (Some [Set_id ''B'', Set_title ''x'']))) = [] \<and>
   getTask (db (snd (PUT_task example_server now1 ''Z'' (Some [Set_id ''B'', Set_title ''x''])))) ''B''
     = Some (task_B\<lparr>title := ''x'', updated_at := now1\<rparr>)"
  by (simp add: PUT_task_def updateTask_def fields_sql_def run_update_eq param_id_def
      param_updated_at_def task_columns_def getTask_def Let_def json_status_def example_defs)




section \<open>The primary key\<close>

text \<open>The store starts with the primary keys respected, and every operation keeps them so.\<close>

lemma primary_keys_init: "primary_keys init"
  by (simp add: primary_keys_def init_def)

lemma primary_keys_createTask:
  "primary_keys D \<Longrightarrow> primary_keys (after (createTask D uuid now ttl descr d prio compl) D)"
  by (auto simp: primary_keys_def after_def createTask_def Let_def)

lemma primary_keys_updateTask:
  assumes "primary_keys D"
  shows "primary_keys (after (updateTask D now i us) D)"
proof (cases "updateTask D now i us")
  case (Inl e)
  then show ?thesis using assms by (simp add: after_def)
next
  case (Inr r)
  obtain x D' where r: "r = (x, D')" by (cases r)
  show ?thesis
  proof (cases "fields_sql us = []")
    case True
    then show ?thesis using Inr r assms by (auto simp: after_def updateTask_def)
  next
    case False
    then have ne: "us \<noteq> []" by (simp add: fields_empty_iff)
    then have k: "\<forall>u \<in> set us. key u \<in> set task_columns"
      using Inr False by (auto simp: updateTask_def run_update_eq split: if_splits)
    obtain rows' where rows: "run_update (tasks D) i now us = Inr rows'"
      "map id_task rows' = map id_task (tasks D)"
      using run_update_ids [OF k ne] by blast
    then have "D' = D\<lparr>tasks := rows'\<rparr>"
      using Inr r False by (simp add: updateTask_def Let_def)
    then show ?thesis using Inr r rows(2) assms by (simp add: after_def primary_keys_def)
  qed
qed

lemma primary_keys_deleteTask: "primary_keys D \<Longrightarrow> primary_keys (snd (deleteTask D i))"
proof -
  have eq: "map (id_session \<circ> (\<lambda>s. if task_id s = Some i then s\<lparr>task_id := None\<rparr> else s)) xs
      = map id_session xs" for xs
    by (induction xs) auto
  show "primary_keys D \<Longrightarrow> primary_keys (snd (deleteTask D i))"
    by (simp add: primary_keys_def deleteTask_def Let_def distinct_map_filter eq)
qed

lemma primary_keys_reorderTasks: "primary_keys D \<Longrightarrow> primary_keys (reorderTasks D d ids)"
proof -
  have "id_task \<circ> reprioritise 0 ids = id_task"
    by (simp add: fun_eq_iff reprioritise_more)
  then show "primary_keys D \<Longrightarrow> primary_keys (reorderTasks D d ids)"
    by (simp add: primary_keys_def reorderTasks_def forEach_reorder_map)
qed

lemma primary_keys_createPomodoroSession:
  "primary_keys D \<Longrightarrow>
   primary_keys (after (createPomodoroSession D uuid tsk dur started fin ty) D)"
  by (auto simp: primary_keys_def after_def createPomodoroSession_def Let_def)

lemma primary_keys_completePomodoroSession:
  "primary_keys D \<Longrightarrow> primary_keys (snd (completePomodoroSession D now i))"
proof -
  have eq: "map (id_session \<circ> (\<lambda>s. if id_session s = i then s\<lparr>completed_at := Some now\<rparr> else s)) xs
      = map id_session xs" for xs
    by (induction xs) auto
  show "primary_keys D \<Longrightarrow> primary_keys (snd (completePomodoroSession D now i))"
    by (simp add: primary_keys_def completePomodoroSession_def Let_def eq)
qed

end
